theory Spec2Isabelle
  imports Main "HOL-Library.Sublist" "HOL-Library.AList"
begin

section \<open>The client-side image cache (lib/image-cache: ImageCacheManager)\<close>

text \<open>
  The module caches remote images in an IndexedDB object store keyed by URL. Its methods
  are asynchronous; every method body runs to completion between two awaits (JavaScript
  is single-threaded), so a single call is modelled as a function from the state before
  the call to the result and the state after it. Everything the browser supplies
  (\<open>indexedDB\<close>, \<open>fetch\<close>, \<open>Date.now\<close>, \<open>URL.createObjectURL\<close>, \<open>FileReader\<close>) is
  a collaborator whose outcome is an input of the call. Times are integral milliseconds
  (\<open>Date.now()\<close>), far below \<open>2^53\<close>, so JavaScript's arithmetic on them is exact integer
  arithmetic.
\<close>

subsection \<open>Data\<close>

text \<open>A \<open>Blob\<close>: a content type and a byte sequence.\<close>

record blob =
  mime :: string
  bytes :: "nat list"

text \<open>\<open>interface CachedImage\<close>; \<open>messageId?\<close> is the optional field.\<close>

record CachedImage =
  url :: string
  blob :: blob
  timestamp :: int
  messageId :: "string option"

definition CACHE_EXPIRY :: int where
  "CACHE_EXPIRY = 7 * 24 * 60 * 60 * 1000"

datatype IDBDatabase = IDBDatabase

text \<open>Every value the source throws or rejects with.\<close>

datatype error =
    OpenFailed
  | DatabaseNotInitialized
  | FetchRejected
  | FetchStatus nat
  | PutFailed
  | ReaderFailed

text \<open>
  What \<open>await fetch(url)\<close> gives: a rejection (transport error), or a response with a
  status and a body.
\<close>

datatype response = Rejected | Response nat blob

text \<open>\<open>response.ok\<close>: the status is in the range 200 to 299.\<close>

definition ok :: "nat \<Rightarrow> bool" where
  "ok status = (200 \<le> status \<and> status \<le> 299)"

text \<open>
  The collaborators of one call. Each flag says which of the two handlers the source
  installs on a request fires: \<open>open_ok\<close> for \<open>indexedDB.open\<close> (\<open>onsuccess\<close> or
  \<open>onerror\<close>; an environment without \<open>indexedDB\<close> rejects likewise), \<open>get_ok\<close> for
  \<open>store.get\<close>, \<open>put_ok\<close> for \<open>store.put\<close>, \<open>count_ok\<close> for \<open>store.count\<close>.
  \<open>latency\<close> is the time in milliseconds that passes while the fetch is awaited, and
  \<open>readAsDataURL\<close> is the \<open>FileReader\<close> (\<open>None\<close> when \<open>onerror\<close> fires).
\<close>

record env =
  open_ok :: bool
  get_ok :: bool
  put_ok :: bool
  count_ok :: bool
  fetch :: "string \<Rightarrow> response"
  latency :: nat
  readAsDataURL :: "blob \<Rightarrow> string option"

text \<open>
  The state: the two fields of the \<open>ImageCacheManager\<close> instance (\<open>db\<close>,
  \<open>isInitialized\<close>) and the part of the browser the module reads and writes: the object
  store \<open>images\<close> (key path \<open>url\<close>) as an association list from primary key to record,
  the number of \<open>indexedDB.open\<close> calls made, the URLs passed to \<open>fetch\<close> in order, the
  blobs for which an object URL was minted in order, the clock, and the console.
\<close>

record state =
  db :: "IDBDatabase option"
  isInitialized :: bool
  images :: "(string \<times> CachedImage) list"
  opens :: nat
  fetched :: "string list"
  objectURLs :: "blob list"
  clock :: int
  console :: "(string \<times> error) list"

text \<open>The instance as constructed (\<open>new ImageCacheManager()\<close>) in a fresh browser profile.\<close>

definition new_state :: "int \<Rightarrow> state" where
  "new_state t = \<lparr>db = None, isInitialized = False, images = [], opens = 0,
     fetched = [], objectURLs = [], clock = t, console = []\<rparr>"

definition warn :: "string \<Rightarrow> error \<Rightarrow> state \<Rightarrow> state" where
  "warn msg err s = s\<lparr>console := console s @ [(msg, err)]\<rparr>"

subsection \<open>Object URLs\<close>

text \<open>
  \<open>URL.createObjectURL\<close> returns a new URL of scheme \<open>blob:\<close> on every call. The
  \<open>n\<close>-th URL minted is \<open>blob:\<close> followed by \<open>n\<close> in decimal.
\<close>

definition digit :: "nat \<Rightarrow> char" where
  "digit d = ''0123456789'' ! d"

fun decimal :: "nat \<Rightarrow> string" where
  "decimal n = (if n < 10 then [digit n] else decimal (n div 10) @ [digit (n mod 10)])"

declare decimal.simps [simp del]

definition object_url :: "nat \<Rightarrow> string" where
  "object_url n = ''blob:'' @ decimal n"

definition createObjectURL :: "blob \<Rightarrow> state \<Rightarrow> string \<times> state" where
  "createObjectURL b s =
     (object_url (length (objectURLs s)), s\<lparr>objectURLs := objectURLs s @ [b]\<rparr>)"

text \<open>The blob an object URL stands for, if it was minted.\<close>

definition deref :: "state \<Rightarrow> string \<Rightarrow> blob option" where
  "deref s r = map_of (zip (map object_url [0..<length (objectURLs s)]) (objectURLs s)) r"

text \<open>JavaScript truthiness of a \<open>string | null\<close>: \<open>null\<close> and the empty string are falsy.\<close>

fun truthy :: "string option \<Rightarrow> bool" where
  "truthy None = False"
| "truthy (Some v) = (v \<noteq> [])"

subsection \<open>Opening the database\<close>

text \<open>
  \<open>init\<close> in two parts, as the event loop runs it. \<open>init_begin\<close> is the synchronous
  part: it returns at once when the flag is set, and calls \<open>indexedDB.open\<close> otherwise.
  \<open>onsuccess\<close> is the handler that stores the handle and sets the flag.
\<close>

definition init_begin :: "state \<Rightarrow> state" where
  "init_begin s = (if isInitialized s then s else s\<lparr>opens := opens s + 1\<rparr>)"

definition onsuccess :: "state \<Rightarrow> state" where
  "onsuccess s = s\<lparr>db := Some IDBDatabase, isInitialized := True\<rparr>"

text \<open>
  One call of \<open>init\<close> awaited on its own. On the first open of a profile
  \<open>onupgradeneeded\<close> creates the object store, empty; the model's store is the empty
  list from the start.
\<close>

definition init :: "env \<Rightarrow> state \<Rightarrow> (error + unit) \<times> state" where
  "init e s =
     (if isInitialized s then (Inr (), init_begin s)
      else if open_ok e then (Inr (), onsuccess (init_begin s))
      else (Inl OpenFailed, init_begin s))"

subsection \<open>Removal and lookup\<close>

text \<open>
  The lookups start \<open>removeCachedImage\<close> for an expired entry without awaiting it. Its
  delete request is issued before the caller continues, and IndexedDB runs the readwrite
  transactions on a store in the order of their creation, so the deletion takes effect
  before any later read or write of the caller; the model runs it in place.
\<close>

definition removeCachedImage :: "env \<Rightarrow> string \<Rightarrow> state \<Rightarrow> state" where
  "removeCachedImage e u s =
     (case init e s of
        (Inl err, s1) \<Rightarrow> warn ''Failed to remove cached image:'' err s1
      | (Inr _, s1) \<Rightarrow>
          (case db s1 of
             None \<Rightarrow> s1
           | Some _ \<Rightarrow> s1\<lparr>images := AList.delete u (images s1)\<rparr>))"

definition getCachedImage :: "env \<Rightarrow> string \<Rightarrow> state \<Rightarrow> string option \<times> state" where
  "getCachedImage e u s =
     (case init e s of
        (Inl err, s1) \<Rightarrow> (None, warn ''Failed to get cached image:'' err s1)
      | (Inr _, s1) \<Rightarrow>
          (case db s1 of
             None \<Rightarrow> (None, s1)
           | Some _ \<Rightarrow>
               if \<not> get_ok e then (None, s1)
               else (case map_of (images s1) u of
                       None \<Rightarrow> (None, s1)
                     | Some result \<Rightarrow>
                         if clock s1 - timestamp result < CACHE_EXPIRY
                         then (case createObjectURL (blob result) s1 of
                                 (r, s2) \<Rightarrow> (Some r, s2))
                         else (None, removeCachedImage e u s1))))"

definition getCachedImageBlob :: "env \<Rightarrow> string \<Rightarrow> state \<Rightarrow> blob option \<times> state" where
  "getCachedImageBlob e u s =
     (case init e s of
        (Inl err, s1) \<Rightarrow> (None, warn ''Failed to get cached image blob:'' err s1)
      | (Inr _, s1) \<Rightarrow>
          (case db s1 of
             None \<Rightarrow> (None, s1)
           | Some _ \<Rightarrow>
               if \<not> get_ok e then (None, s1)
               else (case map_of (images s1) u of
                       None \<Rightarrow> (None, s1)
                     | Some result \<Rightarrow>
                         if clock s1 - timestamp result < CACHE_EXPIRY
                         then (Some (blob result), s1)
                         else (None, removeCachedImage e u s1))))"

subsection \<open>Fetching\<close>

text \<open>
  \<open>await fetch(url)\<close>: the request is logged and the clock moves on by the latency.
\<close>

definition do_fetch :: "env \<Rightarrow> string \<Rightarrow> state \<Rightarrow> response \<times> state" where
  "do_fetch e u s =
     (fetch e u, s\<lparr>fetched := fetched s @ [u], clock := clock s + int (latency e)\<rparr>)"

text \<open>\<open>store.put(cachedImage)\<close>: an upsert under the record's \<open>url\<close>.\<close>

definition put :: "env \<Rightarrow> CachedImage \<Rightarrow> state \<Rightarrow> (error + unit) \<times> state" where
  "put e r s =
     (if put_ok e then (Inr (), s\<lparr>images := AList.update (url r) r (images s)\<rparr>)
      else (Inl PutFailed, s))"

subsection \<open>cacheImage\<close>

text \<open>The body of the \<open>try\<close> block.\<close>

definition cacheImage_try ::
  "env \<Rightarrow> string \<Rightarrow> string option \<Rightarrow> state \<Rightarrow> (error + string) \<times> state" where
  "cacheImage_try e u mid s =
     (case init e s of
        (Inl err, s1) \<Rightarrow> (Inl err, s1)
      | (Inr _, s1) \<Rightarrow>
          (case db s1 of
             None \<Rightarrow> (Inl DatabaseNotInitialized, s1)
           | Some _ \<Rightarrow>
               (case getCachedImage e u s1 of
                  (cached, s2) \<Rightarrow>
                    if truthy cached then (Inr (the cached), s2)
                    else (case do_fetch e u s2 of
                            (Rejected, s3) \<Rightarrow> (Inl FetchRejected, s3)
                          | (Response status b, s3) \<Rightarrow>
                              if \<not> ok status then (Inl (FetchStatus status), s3)
                              else (case put e \<lparr>url = u, blob = b, timestamp = clock s3,
                                                messageId = mid\<rparr> s3 of
                                      (Inl err, s4) \<Rightarrow> (Inl err, s4)
                                    | (Inr _, s4) \<Rightarrow>
                                        (case createObjectURL b s4 of
                                           (r, s5) \<Rightarrow> (Inr r, s5)))))))"

text \<open>With the \<open>catch\<close>: warn and return the original URL.\<close>

definition cacheImage ::
  "env \<Rightarrow> string \<Rightarrow> string option \<Rightarrow> state \<Rightarrow> (error + string) \<times> state" where
  "cacheImage e u mid s =
     (case cacheImage_try e u mid s of
        (Inl err, s1) \<Rightarrow> (Inr u, warn ''Failed to cache image:'' err s1)
      | (Inr r, s1) \<Rightarrow> (Inr r, s1))"

subsection \<open>urlToBase64\<close>

text \<open>The body of the \<open>try\<close> block; the last step is the \<open>FileReader\<close>.\<close>

definition urlToBase64_try :: "env \<Rightarrow> string \<Rightarrow> state \<Rightarrow> (error + string) \<times> state" where
  "urlToBase64_try e u s =
     (case init e s of
        (Inl err, s1) \<Rightarrow> (Inl err, s1)
      | (Inr _, s1) \<Rightarrow>
          (case db s1 of
             None \<Rightarrow> (Inl DatabaseNotInitialized, s1)
           | Some _ \<Rightarrow>
               (case getCachedImageBlob e u s1 of
                  (cached, s2) \<Rightarrow>
                    (case (case cached of
                             Some b \<Rightarrow> (Inr b, s2)
                           | None \<Rightarrow>
                               (case do_fetch e u s2 of
                                  (Rejected, s3) \<Rightarrow> (Inl FetchRejected, s3)
                                | (Response status b, s3) \<Rightarrow>
                                    if \<not> ok status then (Inl (FetchStatus status), s3)
                                    else (case put e \<lparr>url = u, blob = b, timestamp = clock s3,
                                                      messageId = None\<rparr> s3 of
                                            (Inl err, s4) \<Rightarrow> (Inl err, s4)
                                          | (Inr _, s4) \<Rightarrow> (Inr b, s4)))) of
                       (Inl err, s5) \<Rightarrow> (Inl err, s5)
                     | (Inr b, s5) \<Rightarrow>
                         (case readAsDataURL e b of
                            None \<Rightarrow> (Inl ReaderFailed, s5)
                          | Some result \<Rightarrow> (Inr result, s5))))))"

text \<open>With the \<open>catch\<close>: warn and throw the error again.\<close>

definition urlToBase64 :: "env \<Rightarrow> string \<Rightarrow> state \<Rightarrow> (error + string) \<times> state" where
  "urlToBase64 e u s =
     (case urlToBase64_try e u s of
        (Inl err, s1) \<Rightarrow> (Inl err, warn ''Failed to convert URL to base64:'' err s1)
      | (Inr r, s1) \<Rightarrow> (Inr r, s1))"

subsection \<open>clearExpiredCache and getCacheSize\<close>

text \<open>
  The index \<open>timestamp\<close> restricted to \<open>IDBKeyRange.upperBound(cutoff)\<close> (the bound is
  included): the primary keys of the records in the range, in index order.
\<close>

definition index_upperBound :: "int \<Rightarrow> (string \<times> CachedImage) list \<Rightarrow> string list" where
  "index_upperBound cutoff st =
     map fst (sort_key (\<lambda>kr. timestamp (snd kr))
                (filter (\<lambda>kr. timestamp (snd kr) \<le> cutoff) st))"

text \<open>The cursor: \<open>cursor.delete()\<close> then \<open>cursor.continue()\<close> until the range is exhausted.\<close>

fun cursor_loop :: "string list \<Rightarrow> (string \<times> CachedImage) list \<Rightarrow> (string \<times> CachedImage) list" where
  "cursor_loop [] st = st"
| "cursor_loop (k # ks) st = cursor_loop ks (AList.delete k st)"

definition clearExpiredCache :: "env \<Rightarrow> state \<Rightarrow> state" where
  "clearExpiredCache e s =
     (case init e s of
        (Inl err, s1) \<Rightarrow> warn ''Failed to clear expired cache:'' err s1
      | (Inr _, s1) \<Rightarrow>
          (case db s1 of
             None \<Rightarrow> s1
           | Some _ \<Rightarrow>
               (let cutoff = clock s1 - CACHE_EXPIRY
                in s1\<lparr>images := cursor_loop (index_upperBound cutoff (images s1)) (images s1)\<rparr>)))"

definition getCacheSize :: "env \<Rightarrow> state \<Rightarrow> nat \<times> state" where
  "getCacheSize e s =
     (case init e s of
        (Inl err, s1) \<Rightarrow> (0, warn ''Failed to get cache size:'' err s1)
      | (Inr _, s1) \<Rightarrow>
          (case db s1 of
             None \<Rightarrow> (0, s1)
           | Some _ \<Rightarrow> if count_ok e then (length (images s1), s1) else (0, s1)))"

subsection \<open>The hook useCachedImage\<close>

text \<open>
  The state of the hook and its effect, run until the promise chain has settled:
  \<open>.then(setCachedUrl)\<close>, \<open>.catch(() => setCachedUrl(url))\<close>,
  \<open>.finally(() => setIsLoading(false))\<close>. \<open>!url\<close> holds of \<open>null\<close> and of the empty
  string; \<open>startsWith\<close> is \<^const>\<open>prefix\<close>.
\<close>

record hook =
  cachedUrl :: "string option"
  isLoading :: bool

definition useCachedImage ::
  "env \<Rightarrow> string option \<Rightarrow> string option \<Rightarrow> hook \<times> state \<Rightarrow> hook \<times> state" where
  "useCachedImage e uo mid hs =
     (case hs of (h, s) \<Rightarrow>
        if \<not> truthy uo then (h\<lparr>cachedUrl := None\<rparr>, s)
        else if prefix ''blob:'' (the uo) \<or> prefix ''data:'' (the uo)
          then (h\<lparr>cachedUrl := uo\<rparr>, s)
        else (case cacheImage e (the uo) mid s of
                (Inr r, s1) \<Rightarrow> (h\<lparr>cachedUrl := Some r, isLoading := False\<rparr>, s1)
              | (Inl err, s1) \<Rightarrow> (h\<lparr>cachedUrl := uo, isLoading := False\<rparr>, s1)))"

subsection \<open>The words of the specification\<close>

text \<open>
  The specification's expiry: an entry is expired when \<open>now - storedAt \<ge> TTL\<close>, the TTL
  being seven days. In milliseconds, the unit of the clock:
\<close>

definition spec_TTL :: int where
  "spec_TTL = 7 * 86400000"

definition spec_expired :: "int \<Rightarrow> CachedImage \<Rightarrow> bool" where
  "spec_expired now r = (now - timestamp r \<ge> spec_TTL)"

subsection \<open>The event loop around init\<close>

text \<open>
  Several callers of \<open>init\<close> at once: the event loop runs the synchronous part of each
  call (\<^const>\<open>init_begin\<close>) and the handlers of the open requests in some order. A
  failed request rejects its caller's promise and changes no field. In a schedule the
  browser can produce, every handler comes after the call that issued its request.
\<close>

datatype event = InitCalled | OpenSucceeded | OpenErrored

fun step :: "event \<Rightarrow> state \<Rightarrow> state" where
  "step InitCalled s = init_begin s"
| "step OpenSucceeded s = onsuccess s"
| "step OpenErrored s = s"

definition run :: "event list \<Rightarrow> state \<Rightarrow> state" where
  "run evs s = fold step evs s"

subsection \<open>When the store can be used\<close>

text \<open>\<open>await this.init()\<close> resolves and \<open>this.db\<close> is not null afterwards.\<close>

definition available :: "env \<Rightarrow> state \<Rightarrow> bool" where
  "available e s = (case init e s of (Inl err, s1) \<Rightarrow> False | (Inr _, s1) \<Rightarrow> db s1 \<noteq> None)"

text \<open>The lookup of this call finds an entry that has not expired.\<close>

definition fresh_hit :: "env \<Rightarrow> string \<Rightarrow> state \<Rightarrow> bool" where
  "fresh_hit e u s =
     (get_ok e \<and> (case map_of (images s) u of
                     None \<Rightarrow> False
                   | Some r \<Rightarrow> clock s - timestamp r < CACHE_EXPIRY))"

subsection \<open>Example inputs\<close>

definition jpeg :: blob where
  "jpeg = \<lparr>mime = ''image/jpeg'', bytes = [255, 216, 255, 224]\<rparr>"

definition a_jpg :: string where
  "a_jpg = ''https://example.com/a.jpg''"

text \<open>A browser in which every collaborator works and the server answers 200.\<close>

definition env_ok :: env where
  "env_ok = \<lparr>open_ok = True, get_ok = True, put_ok = True, count_ok = True,
     fetch = (\<lambda>u. Response 200 jpeg), latency = 40,
     readAsDataURL = (\<lambda>b. Some (''data:'' @ mime b @ '';base64,/9j/4A==''))\<rparr>"

text \<open>The same with a server that answers 500, a store that refuses writes, and a
  database that cannot be opened.\<close>

definition env_500 :: env where
  "env_500 = env_ok\<lparr>fetch := (\<lambda>u. Response 500 \<lparr>mime = ''text/plain'', bytes = []\<rparr>)\<rparr>"

definition env_quota :: env where
  "env_quota = env_ok\<lparr>put_ok := False\<rparr>"

definition env_nodb :: env where
  "env_nodb = env_ok\<lparr>open_ok := False\<rparr>"

text \<open>A store holding one entry for \<open>a.jpg\<close> written at time 0.\<close>

definition stored_at_0 :: "int \<Rightarrow> state" where
  "stored_at_0 t = (new_state t)\<lparr>images :=
     [(a_jpg, \<lparr>url = a_jpg, blob = jpeg, timestamp = 0, messageId = None\<rparr>)]\<rparr>"

text \<open>A store with two entries, written at time 0 and seven days later.\<close>

definition two_entries :: "int \<Rightarrow> state" where
  "two_entries t = (new_state t)\<lparr>images :=
     [(a_jpg, \<lparr>url = a_jpg, blob = jpeg, timestamp = 0, messageId = None\<rparr>),
      (''https://example.com/b.jpg'',
       \<lparr>url = ''https://example.com/b.jpg'', blob = jpeg, timestamp = 604800000,
        messageId = Some ''m1''\<rparr>)]\<rparr>"

subsection \<open>Auxiliary definitions for the proofs\<close>

text \<open>Reading a decimal numeral back.\<close>

definition digit_value :: "char \<Rightarrow> nat" where
  "digit_value c = of_char c - 48"

definition undecimal :: "string \<Rightarrow> nat" where
  "undecimal cs = foldl (\<lambda>a c. 10 * a + digit_value c) 0 cs"

text \<open>The state after \<open>init\<close> has resolved.\<close>

definition opened :: "state \<Rightarrow> state" where
  "opened s = (if isInitialized s then s else onsuccess (init_begin s))"

text \<open>
  The state of an initialised manager after a lookup that was not a fresh hit and the
  fetch that follows it: an expired entry the lookup found is gone, the request is
  logged, the clock has moved on.
\<close>

definition after_miss :: "env \<Rightarrow> string \<Rightarrow> state \<Rightarrow> state" where
  "after_miss e u s =
     s\<lparr>images := (if get_ok e \<and> map_of (images s) u \<noteq> None
                   then AList.delete u (images s) else images s),
       fetched := fetched s @ [u], clock := clock s + int (latency e)\<rparr>"

section \<open>Facts about the operations\<close>

subsection \<open>Object URLs\<close>

lemma digit_lt10: "d < 10 \<Longrightarrow> d = 0 \<or> d = 1 \<or> d = 2 \<or> d = 3 \<or> d = 4 \<or> d = 5 \<or> d = 6 \<or> d = 7 \<or> d = 8 \<or> d = (9::nat)"
  by arith

lemma digit_value_digit: "d < 10 \<Longrightarrow> digit_value (digit d) = d"
  using digit_lt10 [of d] by (auto simp: digit_def digit_value_def)

lemma undecimal_decimal: "undecimal (decimal n) = n"
proof (induction n rule: decimal.induct)
  case (1 n)
  show ?case
  proof (cases "n < 10")
    case True
    then show ?thesis
      by (subst decimal.simps) (simp add: undecimal_def digit_value_digit)
  next
    case False
    have "undecimal (decimal n) = 10 * undecimal (decimal (n div 10)) + digit_value (digit (n mod 10))"
      using False by (subst decimal.simps) (simp add: undecimal_def)
    also have "\<dots> = 10 * (n div 10) + n mod 10"
      using False "1.IH" by (simp add: digit_value_digit)
    finally show ?thesis by simp
  qed
qed

lemma decimal_inj: "decimal n = decimal m \<Longrightarrow> n = m"
  by (metis undecimal_decimal)

lemma object_url_inj: "object_url n = object_url m \<longleftrightarrow> n = m"
  by (auto simp: object_url_def dest: decimal_inj)

lemma object_url_prefix: "prefix ''blob:'' (object_url n)"
  by (simp add: object_url_def)

lemma object_url_nonempty: "object_url n \<noteq> []"
  by (simp add: object_url_def)

lemma distinct_object_urls: "distinct (map object_url [0..<n])"
  by (simp add: distinct_map inj_on_def object_url_inj)

lemma deref_fresh: "deref s (object_url (length (objectURLs s))) = None"
  by (simp add: deref_def map_of_zip_is_None object_url_inj image_iff)

lemma deref_last:
  assumes "objectURLs s' = bs @ [b]"
  shows "deref s' (object_url (length bs)) = Some b"
proof -
  let ?n = "length bs"
  let ?ks = "map object_url [0..<Suc ?n]"
  have "map_of (zip ?ks (bs @ [b])) (?ks ! ?n) = Some ((bs @ [b]) ! ?n)"
    by (rule map_of_zip_nth) (simp_all add: distinct_object_urls del: upt_Suc)
  moreover have "?ks ! ?n = object_url ?n"
    by (simp add: nth_append)
  ultimately show ?thesis
    using assms by (simp add: deref_def nth_append)
qed

subsection \<open>Expiry\<close>

lemma spec_expired_iff: "spec_expired now r \<longleftrightarrow> \<not> now - timestamp r < CACHE_EXPIRY"
  by (auto simp: spec_expired_def spec_TTL_def CACHE_EXPIRY_def)

lemma spec_expired_cutoff: "spec_expired now r \<longleftrightarrow> timestamp r \<le> now - CACHE_EXPIRY"
  by (auto simp: spec_expired_def spec_TTL_def CACHE_EXPIRY_def)

subsection \<open>Opening the database\<close>

lemma init_initialized: "isInitialized s \<Longrightarrow> init e s = (Inr (), s)"
  by (simp add: init_def init_begin_def)

lemma available_iff:
  "available e s \<longleftrightarrow> (if isInitialized s then db s \<noteq> None else open_ok e)"
  by (simp add: available_def init_def init_begin_def onsuccess_def)

lemma opened_fields:
  "images (opened s) = images s" "fetched (opened s) = fetched s"
  "clock (opened s) = clock s" "objectURLs (opened s) = objectURLs s"
  "console (opened s) = console s" "isInitialized (opened s)"
  by (simp_all add: opened_def onsuccess_def init_begin_def)

lemma opened_idem: "isInitialized s \<Longrightarrow> opened s = s"
  by (simp add: opened_def)

lemma available_init:
  assumes "available e s"
  shows "init e s = (Inr (), opened s)" and "db (opened s) \<noteq> None"
  using assms by (auto simp: available_iff opened_def init_def init_begin_def onsuccess_def split: if_splits)

lemma fresh_hit_opened: "fresh_hit e u (opened s) = fresh_hit e u s"
  by (simp add: fresh_hit_def opened_fields split: option.splits)

lemma after_miss_fields:
  "fetched (after_miss e u s) = fetched s @ [u]"
  "clock (after_miss e u s) = clock s + int (latency e)"
  "objectURLs (after_miss e u s) = objectURLs s"
  "images (after_miss e u s) =
     (if get_ok e \<and> map_of (images s) u \<noteq> None then AList.delete u (images s) else images s)"
  by (simp_all add: after_miss_def)

subsection \<open>The lookups\<close>

lemma delete_subset: "set (AList.delete k al) \<subseteq> set al"
  by (auto simp: AList.delete_eq)

lemma removeCachedImage_initialized:
  "isInitialized s \<Longrightarrow> db s \<noteq> None \<Longrightarrow>
     removeCachedImage e u s = s\<lparr>images := AList.delete u (images s)\<rparr>"
  by (auto simp: removeCachedImage_def init_initialized)

lemma getCachedImage_initialized:
  assumes "isInitialized s" "db s \<noteq> None"
  shows "getCachedImage e u s =
     (if get_ok e then
        (case map_of (images s) u of
           None \<Rightarrow> (None, s)
         | Some r \<Rightarrow>
             if clock s - timestamp r < CACHE_EXPIRY
             then (Some (object_url (length (objectURLs s))),
                   s\<lparr>objectURLs := objectURLs s @ [blob r]\<rparr>)
             else (None, s\<lparr>images := AList.delete u (images s)\<rparr>))
      else (None, s))"
  using assms
  by (auto simp: getCachedImage_def init_initialized createObjectURL_def
        removeCachedImage_initialized split: option.splits)

lemma getCachedImageBlob_initialized:
  assumes "isInitialized s" "db s \<noteq> None"
  shows "getCachedImageBlob e u s =
     (if get_ok e then
        (case map_of (images s) u of
           None \<Rightarrow> (None, s)
         | Some r \<Rightarrow>
             if clock s - timestamp r < CACHE_EXPIRY
             then (Some (blob r), s)
             else (None, s\<lparr>images := AList.delete u (images s)\<rparr>))
      else (None, s))"
  using assms
  by (auto simp: getCachedImageBlob_def init_initialized
        removeCachedImage_initialized split: option.splits)

lemma getCachedImage_opened:
  assumes "available e s"
  shows "getCachedImage e u s = getCachedImage e u (opened s)"
  using available_init [OF assms]
  by (simp add: getCachedImage_def init_initialized opened_fields)

lemma getCachedImageBlob_opened:
  assumes "available e s"
  shows "getCachedImageBlob e u s = getCachedImageBlob e u (opened s)"
  using available_init [OF assms]
  by (simp add: getCachedImageBlob_def init_initialized opened_fields)

lemma getCachedImage_Some:
  assumes "fst (getCachedImage e u s) = Some v"
  shows "\<exists>r. map_of (images s) u = Some r \<and> \<not> spec_expired (clock s) r"
  using assms
  by (auto simp: getCachedImage_def spec_expired_iff init_def init_begin_def onsuccess_def
        warn_def createObjectURL_def split: if_splits option.splits)

lemma getCachedImageBlob_Some:
  assumes "fst (getCachedImageBlob e u s) = Some v"
  shows "\<exists>r. map_of (images s) u = Some r \<and> blob r = v \<and> \<not> spec_expired (clock s) r"
  using assms
  by (auto simp: getCachedImageBlob_def spec_expired_iff init_def init_begin_def onsuccess_def
        warn_def split: if_splits option.splits)

subsection \<open>cacheImage\<close>

lemma cacheImage_try_hit:
  assumes "isInitialized s" "db s \<noteq> None" "get_ok e" "map_of (images s) u = Some r"
    "clock s - timestamp r < CACHE_EXPIRY"
  shows "cacheImage_try e u mid s =
     (Inr (object_url (length (objectURLs s))), s\<lparr>objectURLs := objectURLs s @ [blob r]\<rparr>)"
  using assms
  by (simp add: cacheImage_try_def init_initialized getCachedImage_initialized
        object_url_nonempty split: option.splits)

lemma cacheImage_try_miss:
  assumes "isInitialized s" "db s \<noteq> None" "\<not> fresh_hit e u s"
  shows "cacheImage_try e u mid s =
     (case fetch e u of
        Rejected \<Rightarrow> (Inl FetchRejected, after_miss e u s)
      | Response status b \<Rightarrow>
          if \<not> ok status then (Inl (FetchStatus status), after_miss e u s)
          else if \<not> put_ok e then (Inl PutFailed, after_miss e u s)
          else (Inr (object_url (length (objectURLs s))),
                (after_miss e u s)\<lparr>images := AList.update u
                    \<lparr>url = u, blob = b, timestamp = clock s + int (latency e), messageId = mid\<rparr>
                    (images (after_miss e u s)),
                  objectURLs := objectURLs s @ [b]\<rparr>))"
  using assms
  by (auto simp: cacheImage_try_def init_initialized getCachedImage_initialized fresh_hit_def
        do_fetch_def put_def createObjectURL_def after_miss_def
        split: option.splits response.splits)

lemma cacheImage_try_opened:
  assumes "available e s"
  shows "cacheImage_try e u mid s = cacheImage_try e u mid (opened s)"
  using available_init [OF assms]
  by (simp add: cacheImage_try_def init_initialized opened_fields)

lemma cacheImage_try_unavailable:
  assumes "\<not> available e s"
  shows "\<exists>err. cacheImage_try e u mid s = (Inl err, snd (init e s))"
  using assms
  by (auto simp: cacheImage_try_def available_def split: prod.splits sum.splits option.splits)

lemma cacheImage_try_Inr:
  assumes "cacheImage_try e u mid s = (Inr r, s')"
  shows "r = object_url (length (objectURLs s)) \<and> (\<exists>b. objectURLs s' = objectURLs s @ [b])"
proof (cases "available e s")
  case False
  from cacheImage_try_unavailable [OF this, of u mid] assms show ?thesis by auto
next
  case True
  note av = available_init [OF True]
  have eq: "cacheImage_try e u (mid) (opened s) = (Inr r, s')"
    using assms cacheImage_try_opened [OF True] by simp
  show ?thesis
  proof (cases "fresh_hit e u (opened s)")
    case True
    then obtain r0 where "get_ok e" "map_of (images (opened s)) u = Some r0"
      "clock (opened s) - timestamp r0 < CACHE_EXPIRY"
      by (auto simp: fresh_hit_def split: option.splits)
    from cacheImage_try_hit [OF opened_fields(6) av(2) this, of mid] eq
    show ?thesis by (auto simp: opened_fields)
  next
    case False
    from cacheImage_try_miss [OF opened_fields(6) av(2) False, of mid] eq
    show ?thesis
      by (auto simp: opened_fields after_miss_fields split: response.splits if_splits)
  qed
qed

lemma cacheImage_try_fails_iff:
  "isl (fst (cacheImage_try e u mid s)) \<longleftrightarrow>
     \<not> available e s \<or>
     (\<not> fresh_hit e u s \<and>
      (case fetch e u of Rejected \<Rightarrow> True | Response st b \<Rightarrow> \<not> ok st \<or> \<not> put_ok e))"
proof (cases "available e s")
  case False
  from cacheImage_try_unavailable [OF this, of u mid] False show ?thesis by auto
next
  case True
  note av = available_init [OF True]
  show ?thesis
  proof (cases "fresh_hit e u (opened s)")
    case True
    then obtain r0 where "get_ok e" "map_of (images (opened s)) u = Some r0"
      "clock (opened s) - timestamp r0 < CACHE_EXPIRY"
      by (auto simp: fresh_hit_def split: option.splits)
    from cacheImage_try_hit [OF opened_fields(6) av(2) this, of mid] True \<open>available e s\<close>
    show ?thesis
      by (simp add: cacheImage_try_opened [OF \<open>available e s\<close>] fresh_hit_opened)
  next
    case False
    from cacheImage_try_miss [OF opened_fields(6) av(2) False, of mid] False \<open>available e s\<close>
    show ?thesis
      by (auto simp: cacheImage_try_opened [OF \<open>available e s\<close>] fresh_hit_opened
          split: response.splits)
  qed
qed

lemma cacheImage_fetched_miss:
  assumes "available e s" "\<not> fresh_hit e u s"
  shows "fetched (snd (cacheImage e u mid s)) = fetched s @ [u]"
proof -
  note av = available_init [OF assms(1)]
  have nf: "\<not> fresh_hit e u (opened s)" using assms(2) by (simp add: fresh_hit_opened)
  show ?thesis
    using cacheImage_try_miss [OF opened_fields(6) av(2) nf, of mid]
    by (simp add: cacheImage_def cacheImage_try_opened [OF assms(1)] after_miss_fields
        opened_fields warn_def split: response.splits)
qed

lemma cacheImage_stores:
  assumes "available e s" "\<not> fresh_hit e u s" "fetch e u = Response st b" "ok st" "put_ok e"
  shows "cacheImage e u mid s =
     (Inr (object_url (length (objectURLs s))),
      (after_miss e u (opened s))\<lparr>images := AList.update u
          \<lparr>url = u, blob = b, timestamp = clock s + int (latency e), messageId = mid\<rparr>
          (images (after_miss e u (opened s))),
        objectURLs := objectURLs s @ [b]\<rparr>)"
proof -
  note av = available_init [OF assms(1)]
  have nf: "\<not> fresh_hit e u (opened s)" using assms(2) by (simp add: fresh_hit_opened)
  show ?thesis
    using cacheImage_try_miss [OF opened_fields(6) av(2) nf, of mid] assms(3-5)
    by (simp add: cacheImage_def cacheImage_try_opened [OF assms(1)] opened_fields)
qed

lemma cacheImage_hit:
  assumes "available e s" "get_ok e" "map_of (images s) u = Some r"
    "clock s - timestamp r < CACHE_EXPIRY"
  shows "cacheImage e u mid s =
     (Inr (object_url (length (objectURLs s))),
      (opened s)\<lparr>objectURLs := objectURLs s @ [blob r]\<rparr>)"
proof -
  note av = available_init [OF assms(1)]
  show ?thesis
    using cacheImage_try_hit [OF opened_fields(6) av(2) assms(2), of u r mid] assms(3,4)
    by (simp add: cacheImage_def cacheImage_try_opened [OF assms(1)] opened_fields)
qed

lemma cacheImage_unopenable:
  assumes "\<not> isInitialized s" "\<not> open_ok e"
  shows "cacheImage e u mid s =
     (Inr u, warn ''Failed to cache image:'' OpenFailed (init_begin s))"
  using assms by (simp add: cacheImage_def cacheImage_try_def init_def)

subsection \<open>urlToBase64\<close>

lemma urlToBase64_try_hit:
  assumes "isInitialized s" "db s \<noteq> None" "get_ok e" "map_of (images s) u = Some r"
    "clock s - timestamp r < CACHE_EXPIRY"
  shows "urlToBase64_try e u s =
     (case readAsDataURL e (blob r) of
        None \<Rightarrow> (Inl ReaderFailed, s)
      | Some d \<Rightarrow> (Inr d, s))"
  using assms
  by (auto simp: urlToBase64_try_def init_initialized getCachedImageBlob_initialized
        split: option.splits)

lemma urlToBase64_try_miss:
  assumes "isInitialized s" "db s \<noteq> None" "\<not> fresh_hit e u s"
  shows "urlToBase64_try e u s =
     (case fetch e u of
        Rejected \<Rightarrow> (Inl FetchRejected, after_miss e u s)
      | Response status b \<Rightarrow>
          if \<not> ok status then (Inl (FetchStatus status), after_miss e u s)
          else if \<not> put_ok e then (Inl PutFailed, after_miss e u s)
          else (case readAsDataURL e b of
                  None \<Rightarrow> (Inl ReaderFailed,
                    (after_miss e u s)\<lparr>images := AList.update u
                       \<lparr>url = u, blob = b, timestamp = clock s + int (latency e),
                        messageId = None\<rparr> (images (after_miss e u s))\<rparr>)
                | Some d \<Rightarrow> (Inr d,
                    (after_miss e u s)\<lparr>images := AList.update u
                       \<lparr>url = u, blob = b, timestamp = clock s + int (latency e),
                        messageId = None\<rparr> (images (after_miss e u s))\<rparr>)))"
  using assms
  by (auto simp: urlToBase64_try_def init_initialized getCachedImageBlob_initialized fresh_hit_def
        do_fetch_def put_def after_miss_def
        split: option.splits response.splits)

lemma urlToBase64_try_opened:
  assumes "available e s"
  shows "urlToBase64_try e u s = urlToBase64_try e u (opened s)"
  using available_init [OF assms]
  by (simp add: urlToBase64_try_def init_initialized opened_fields)

lemma urlToBase64_fetched_miss:
  assumes "available e s" "\<not> fresh_hit e u s"
  shows "fetched (snd (urlToBase64 e u s)) = fetched s @ [u]"
proof -
  note av = available_init [OF assms(1)]
  have nf: "\<not> fresh_hit e u (opened s)" using assms(2) by (simp add: fresh_hit_opened)
  show ?thesis
    using urlToBase64_try_miss [OF opened_fields(6) av(2) nf]
    by (simp add: urlToBase64_def urlToBase64_try_opened [OF assms(1)] after_miss_fields
        opened_fields warn_def split: response.splits option.splits)
qed

lemma urlToBase64_stores:
  assumes "available e s" "\<not> fresh_hit e u s" "fetch e u = Response st b" "ok st" "put_ok e"
  shows "images (snd (urlToBase64 e u s)) = AList.update u
          \<lparr>url = u, blob = b, timestamp = clock s + int (latency e), messageId = None\<rparr>
          (images (after_miss e u (opened s)))"
proof -
  note av = available_init [OF assms(1)]
  have nf: "\<not> fresh_hit e u (opened s)" using assms(2) by (simp add: fresh_hit_opened)
  show ?thesis
    using urlToBase64_try_miss [OF opened_fields(6) av(2) nf] assms(3-5)
    by (simp add: urlToBase64_def urlToBase64_try_opened [OF assms(1)] opened_fields warn_def
        split: option.splits)
qed

lemma urlToBase64_unopenable:
  assumes "\<not> isInitialized s" "\<not> open_ok e"
  shows "urlToBase64 e u s =
     (Inl OpenFailed, warn ''Failed to convert URL to base64:'' OpenFailed (init_begin s))"
  using assms by (simp add: urlToBase64_def urlToBase64_try_def init_def)

subsection \<open>The sweep and the count\<close>

lemma cursor_loop_filter: "cursor_loop ks st = filter (\<lambda>kr. fst kr \<notin> set ks) st"
proof (induction ks arbitrary: st)
  case Nil
  show ?case by simp
next
  case (Cons k ks)
  have "cursor_loop (k # ks) st = filter (\<lambda>kr. fst kr \<notin> set ks) (filter (\<lambda>kr. k \<noteq> fst kr) st)"
    by (simp add: Cons.IH AList.delete_eq case_prod_unfold)
  also have "\<dots> = filter (\<lambda>kr. fst kr \<notin> set (k # ks)) st"
    by (auto intro: filter_cong)
  finally show ?case .
qed

lemma set_index_upperBound:
  "set (index_upperBound c st) = fst ` {kr \<in> set st. timestamp (snd kr) \<le> c}"
  by (simp add: index_upperBound_def)

lemma sweep_filter:
  assumes "distinct (map fst st)"
  shows "cursor_loop (index_upperBound c st) st = filter (\<lambda>kr. \<not> timestamp (snd kr) \<le> c) st"
proof -
  have "fst kr \<in> set (index_upperBound c st) \<longleftrightarrow> timestamp (snd kr) \<le> c"
    if "kr \<in> set st" for kr
  proof
    assume "fst kr \<in> set (index_upperBound c st)"
    then obtain kr' where k: "kr' \<in> set st" "timestamp (snd kr') \<le> c" "fst kr' = fst kr"
      by (auto simp: set_index_upperBound)
    have "snd kr' = snd kr"
      using eq_key_imp_eq_value [OF assms, of "fst kr" "snd kr'" "snd kr"] k that
      by (metis prod.collapse)
    with k show "timestamp (snd kr) \<le> c" by simp
  next
    assume "timestamp (snd kr) \<le> c"
    with that show "fst kr \<in> set (index_upperBound c st)"
      by (auto simp: set_index_upperBound)
  qed
  then show ?thesis
    by (auto simp: cursor_loop_filter intro: filter_cong)
qed

lemma sweep_expired:
  assumes "distinct (map fst st)"
  shows "cursor_loop (index_upperBound (now - CACHE_EXPIRY) st) st =
     filter (\<lambda>kr. \<not> spec_expired now (snd kr)) st"
  by (simp add: sweep_filter [OF assms] spec_expired_cutoff)

lemma clearExpiredCache_available:
  assumes "available e s"
  shows "clearExpiredCache e s =
     (opened s)\<lparr>images := cursor_loop (index_upperBound (clock s - CACHE_EXPIRY) (images s))
                              (images s)\<rparr>"
  using available_init [OF assms]
  by (auto simp: clearExpiredCache_def opened_fields)

lemma getCacheSize_available:
  assumes "available e s"
  shows "getCacheSize e s = (if count_ok e then length (images s) else 0, opened s)"
  using available_init [OF assms]
  by (auto simp: getCacheSize_def opened_fields)

lemma hits_bound:
  "card {k. fst (getCachedImage e k s) \<noteq> None}
     \<le> length (filter (\<lambda>kr. \<not> spec_expired (clock s) (snd kr)) (images s))"
proof -
  let ?fresh = "filter (\<lambda>kr. \<not> spec_expired (clock s) (snd kr)) (images s)"
  have "{k. fst (getCachedImage e k s) \<noteq> None} \<subseteq> fst ` set ?fresh"
  proof
    fix k assume "k \<in> {k. fst (getCachedImage e k s) \<noteq> None}"
    then obtain v where "fst (getCachedImage e k s) = Some v" by auto
    from getCachedImage_Some [OF this]
    obtain r where "map_of (images s) k = Some r" "\<not> spec_expired (clock s) r" by auto
    then have "(k, r) \<in> set ?fresh" by (auto dest: map_of_SomeD)
    then show "k \<in> fst ` set ?fresh" by force
  qed
  then have "card {k. fst (getCachedImage e k s) \<noteq> None} \<le> card (fst ` set ?fresh)"
    by (intro card_mono) simp_all
  also have "\<dots> \<le> card (set ?fresh)" by (rule card_image_le) simp
  also have "\<dots> \<le> length ?fresh" by (rule card_length)
  finally show ?thesis .
qed

lemma hits_bound_blob:
  "card {k. fst (getCachedImageBlob e k s) \<noteq> None}
     \<le> length (filter (\<lambda>kr. \<not> spec_expired (clock s) (snd kr)) (images s))"
proof -
  let ?fresh = "filter (\<lambda>kr. \<not> spec_expired (clock s) (snd kr)) (images s)"
  have "{k. fst (getCachedImageBlob e k s) \<noteq> None} \<subseteq> fst ` set ?fresh"
  proof
    fix k assume "k \<in> {k. fst (getCachedImageBlob e k s) \<noteq> None}"
    then obtain v where "fst (getCachedImageBlob e k s) = Some v" by auto
    from getCachedImageBlob_Some [OF this]
    obtain r where "map_of (images s) k = Some r" "\<not> spec_expired (clock s) r" by auto
    then have "(k, r) \<in> set ?fresh" by (auto dest: map_of_SomeD)
    then show "k \<in> fst ` set ?fresh" by force
  qed
  then have "card {k. fst (getCachedImageBlob e k s) \<noteq> None} \<le> card (fst ` set ?fresh)"
    by (intro card_mono) simp_all
  also have "\<dots> \<le> card (set ?fresh)" by (rule card_image_le) simp
  also have "\<dots> \<le> length ?fresh" by (rule card_length)
  finally show ?thesis .
qed

subsection \<open>The keys of the store stay distinct\<close>

text \<open>
  The keys of an object store are primary keys. The model keeps them distinct: the store
  of a fresh profile is empty, and no operation introduces a second record under a key.
\<close>

lemma init_images: "images (snd (init e s)) = images s"
  by (simp add: init_def init_begin_def onsuccess_def)

lemma removeCachedImage_distinct:
  "distinct (map fst (images s)) \<Longrightarrow> distinct (map fst (images (removeCachedImage e u s)))"
  by (auto simp: removeCachedImage_def warn_def init_def init_begin_def onsuccess_def
        distinct_delete split: option.splits)

lemma getCachedImage_distinct:
  "distinct (map fst (images s)) \<Longrightarrow> distinct (map fst (images (snd (getCachedImage e u s))))"
  by (auto simp: getCachedImage_def warn_def init_def init_begin_def onsuccess_def
        createObjectURL_def removeCachedImage_initialized distinct_delete split: option.splits)

lemma getCachedImageBlob_distinct:
  "distinct (map fst (images s)) \<Longrightarrow> distinct (map fst (images (snd (getCachedImageBlob e u s))))"
  by (auto simp: getCachedImageBlob_def warn_def init_def init_begin_def onsuccess_def
        removeCachedImage_initialized distinct_delete split: option.splits)

lemma after_miss_distinct:
  "distinct (map fst (images s)) \<Longrightarrow> distinct (map fst (images (after_miss e u s)))"
  by (simp add: after_miss_def distinct_delete)

lemma cacheImage_distinct:
  assumes "distinct (map fst (images s))"
  shows "distinct (map fst (images (snd (cacheImage e u mid s))))"
proof (cases "available e s")
  case False
  from cacheImage_try_unavailable [OF this, of u mid] assms show ?thesis
    by (auto simp: cacheImage_def warn_def init_images)
next
  case True
  note av = available_init [OF True]
  have d: "distinct (map fst (images (opened s)))" using assms by (simp add: opened_fields)
  show ?thesis
  proof (cases "fresh_hit e u (opened s)")
    case True
    then obtain r0 where "get_ok e" "map_of (images (opened s)) u = Some r0"
      "clock (opened s) - timestamp r0 < CACHE_EXPIRY"
      by (auto simp: fresh_hit_def split: option.splits)
    from cacheImage_try_hit [OF opened_fields(6) av(2) this, of mid] d
    show ?thesis by (simp add: cacheImage_def cacheImage_try_opened [OF \<open>available e s\<close>])
  next
    case False
    from cacheImage_try_miss [OF opened_fields(6) av(2) False, of mid]
      after_miss_distinct [OF d, of e u]
    show ?thesis
      by (auto simp: cacheImage_def cacheImage_try_opened [OF \<open>available e s\<close>] warn_def
          distinct_update split: response.splits)
  qed
qed

lemma clearExpiredCache_distinct:
  assumes "distinct (map fst (images s))"
  shows "distinct (map fst (images (clearExpiredCache e s)))"
  using assms
  by (auto simp: clearExpiredCache_def warn_def init_def init_begin_def onsuccess_def
        cursor_loop_filter distinct_map_filter split: option.splits)

lemma urlToBase64_distinct:
  assumes "distinct (map fst (images s))"
  shows "distinct (map fst (images (snd (urlToBase64 e u s))))"
proof (cases "available e s")
  case False
  then have "\<exists>err. urlToBase64_try e u s = (Inl err, snd (init e s))"
    by (auto simp: urlToBase64_try_def available_def split: prod.splits sum.splits option.splits)
  with assms show ?thesis
    by (auto simp: urlToBase64_def warn_def init_images)
next
  case True
  note av = available_init [OF True]
  have d: "distinct (map fst (images (opened s)))" using assms by (simp add: opened_fields)
  show ?thesis
  proof (cases "fresh_hit e u (opened s)")
    case True
    then obtain r0 where "get_ok e" "map_of (images (opened s)) u = Some r0"
      "clock (opened s) - timestamp r0 < CACHE_EXPIRY"
      by (auto simp: fresh_hit_def split: option.splits)
    from urlToBase64_try_hit [OF opened_fields(6) av(2) this] d
    show ?thesis
      by (auto simp: urlToBase64_def urlToBase64_try_opened [OF \<open>available e s\<close>] warn_def
          split: option.splits)
  next
    case False
    from urlToBase64_try_miss [OF opened_fields(6) av(2) False]
      after_miss_distinct [OF d, of e u]
    show ?thesis
      by (auto simp: urlToBase64_def urlToBase64_try_opened [OF \<open>available e s\<close>] warn_def
          distinct_update split: response.splits option.splits)
  qed
qed


subsection \<open>The event loop\<close>

lemma run_initialized:
  "isInitialized s \<Longrightarrow> opens (run evs s) = opens s \<and> isInitialized (run evs s)"
proof (induction evs arbitrary: s)
  case Nil
  then show ?case by (simp add: run_def)
next
  case (Cons ev evs)
  have "isInitialized (step ev s)" "opens (step ev s) = opens s"
    using Cons.prems by (cases ev; simp add: init_begin_def onsuccess_def)+
  with Cons.IH [of "step ev s"] show ?case by (simp add: run_def)
qed

lemma run_calls:
  "\<not> isInitialized s \<Longrightarrow> opens (run (replicate n InitCalled) s) = opens s + n"
proof (induction n arbitrary: s)
  case 0
  show ?case by (simp add: run_def)
next
  case (Suc n)
  have "\<not> isInitialized (init_begin s)" "opens (init_begin s) = opens s + 1"
    using Suc.prems by (simp_all add: init_begin_def)
  with Suc.IH [of "init_begin s"] show ?case by (simp add: run_def)
qed

subsection \<open>Evaluation on the example inputs\<close>

text \<open>The equations that evaluate a run on the example inputs.\<close>

lemmas run_defs =
  cacheImage_def cacheImage_try_def urlToBase64_def urlToBase64_try_def
  getCachedImage_def getCachedImageBlob_def removeCachedImage_def
  clearExpiredCache_def getCacheSize_def useCachedImage_def
  init_def init_begin_def onsuccess_def do_fetch_def put_def createObjectURL_def
  object_url_def decimal.simps digit_def ok_def warn_def CACHE_EXPIRY_def
  available_def fresh_hit_def spec_expired_def spec_TTL_def
  index_upperBound_def run_def

lemmas example_defs =
  new_state_def env_ok_def env_500_def env_quota_def env_nodb_def a_jpg_def jpeg_def
  stored_at_0_def two_entries_def

section \<open>The claims\<close>

text \<open>
  C1. \<open>cacheImage\<close> never throws: for every URL, every state and every outcome of the
  collaborators it returns a value. When the \<open>try\<close> block raised, the value is the
  original URL; otherwise it is an object URL minted by this call, one that did not
  exist before and that stands for a blob afterwards. The \<open>try\<close> block raises exactly
  when the database cannot be used, or the lookup is not a fresh hit and the fetch is
  rejected, answered with a status outside 200 to 299, or followed by a failed write.
\<close>

theorem cacheImage_never_throws:
  "\<exists>v s'. cacheImage e u mid s = (Inr v, s') \<and>
     (case fst (cacheImage_try e u mid s) of
        Inl err \<Rightarrow> v = u
      | Inr r \<Rightarrow> v = r \<and> prefix ''blob:'' r \<and> deref s r = None \<and> deref s' r \<noteq> None) \<and>
     (isl (fst (cacheImage_try e u mid s)) \<longleftrightarrow>
        \<not> available e s \<or>
        (\<not> fresh_hit e u s \<and>
         (case fetch e u of Rejected \<Rightarrow> True | Response st b \<Rightarrow> \<not> ok st \<or> \<not> put_ok e)))"
proof (cases "cacheImage_try e u mid s")
  case (Pair res s1)
  note iff = cacheImage_try_fails_iff [of e u mid s]
  show ?thesis
  proof (cases res)
    case (Inl err)
    with Pair iff show ?thesis by (simp add: cacheImage_def)
  next
    case (Inr r)
    with Pair cacheImage_try_Inr [of e u mid s r s1]
    obtain b where r: "r = object_url (length (objectURLs s))"
      and b: "objectURLs s1 = objectURLs s @ [b]" by auto
    have "deref s1 r = Some b" using deref_last [OF b] r by simp
    moreover have "deref s r = None" using r deref_fresh by simp
    ultimately show ?thesis
      using Pair Inr r iff by (simp add: cacheImage_def object_url_prefix)
  qed
qed

text \<open>
  A write that fails gives back the URL; a run in which all succeeds gives an object URL.
\<close>

theorem cacheImage_never_throws_witness:
  "fst (cacheImage env_quota a_jpg None (new_state 0)) = Inr a_jpg
   \<and> fst (cacheImage env_ok a_jpg None (new_state 0)) = Inr ''blob:0''"
  using cacheImage_never_throws [of env_quota a_jpg None "new_state 0"]
    cacheImage_never_throws [of env_ok a_jpg None "new_state 0"]
  by (simp add: run_defs example_defs)

text \<open>
  C2. A first call of \<open>cacheImage\<close> for a URL that has no entry, on a store that opens,
  makes exactly one fetch. When that fetch and the write succeed, the entry is stored
  under the time of insertion, and a later call for the same URL at a time \<open>t\<close> within
  \<open>CACHE_EXPIRY\<close> of it makes no fetch: it returns an object URL that differs from the
  first call's, did not exist before the call, and stands for the stored blob.
\<close>

theorem cacheImage_fetches_once_then_hits:
  assumes "available e1 s" and "map_of (images s) u = None"
    and "cacheImage e1 u mid s = (r1, s1)"
    and "cacheImage e2 u mid2 (s1\<lparr>clock := t\<rparr>) = (r2, s2)"
  shows "fetched s1 = fetched s @ [u] \<and>
     (fetch e1 u = Response st b \<and> ok st \<and> put_ok e1 \<and> get_ok e2 \<and> t - clock s1 < CACHE_EXPIRY \<longrightarrow>
        map_of (images s1) u =
          Some \<lparr>url = u, blob = b, timestamp = clock s1, messageId = mid\<rparr> \<and>
        fetched s2 = fetched s1 \<and>
        (\<exists>v. r2 = Inr v \<and> r2 \<noteq> r1 \<and> deref (s1\<lparr>clock := t\<rparr>) v = None \<and> deref s2 v = Some b))"
proof -
  have nf: "\<not> fresh_hit e1 u s" using assms(2) by (simp add: fresh_hit_def)
  have one: "fetched s1 = fetched s @ [u]"
    using cacheImage_fetched_miss [OF assms(1) nf, of mid] assms(3) by simp
  moreover
  { assume f: "fetch e1 u = Response st b" "ok st" "put_ok e1" and g: "get_ok e2"
      and w: "t - clock s1 < CACHE_EXPIRY"
    let ?r = "\<lparr>url = u, blob = b, timestamp = clock s1, messageId = mid\<rparr>"
    let ?s = "s1\<lparr>clock := t\<rparr>"
    from cacheImage_stores [OF assms(1) nf f, of mid] assms(3)
    have r1: "r1 = Inr (object_url (length (objectURLs s)))"
      and s1: "s1 = (after_miss e1 u (opened s))\<lparr>images := AList.update u
          \<lparr>url = u, blob = b, timestamp = clock s + int (latency e1), messageId = mid\<rparr>
          (images (after_miss e1 u (opened s))),
        objectURLs := objectURLs s @ [b]\<rparr>" by simp_all
    have c1: "clock s1 = clock s + int (latency e1)"
      by (simp add: s1 after_miss_fields opened_fields)
    have ent: "map_of (images s1) u = Some ?r"
      by (simp add: s1 c1 update_conv' after_miss_fields opened_fields)
    have o1: "objectURLs s1 = objectURLs s @ [b]" by (simp add: s1)
    have i1: "isInitialized s1" "db s1 \<noteq> None"
      using available_init [OF assms(1)] by (simp_all add: s1 after_miss_def opened_fields)
    have av2: "available e2 ?s" using i1 by (simp add: available_iff)
    have "cacheImage e2 u mid2 ?s =
       (Inr (object_url (length (objectURLs ?s))), (opened ?s)\<lparr>objectURLs := objectURLs ?s @ [blob ?r]\<rparr>)"
      by (rule cacheImage_hit [OF av2 g]) (use ent w in simp_all)
    with assms(4) have r2: "r2 = Inr (object_url (length (objectURLs s1)))"
      and s2: "s2 = (opened ?s)\<lparr>objectURLs := objectURLs s1 @ [b]\<rparr>" by simp_all
    have "fetched s2 = fetched s1" by (simp add: s2 opened_fields)
    moreover have "r2 \<noteq> r1" by (simp add: r1 r2 o1 object_url_inj)
    moreover have "deref ?s (object_url (length (objectURLs s1))) = None"
      using deref_fresh [of ?s] by simp
    moreover have "deref s2 (object_url (length (objectURLs s1))) = Some b"
      by (rule deref_last) (simp add: s2)
    ultimately have "map_of (images s1) u = Some ?r \<and> fetched s2 = fetched s1 \<and>
        (\<exists>v. r2 = Inr v \<and> r2 \<noteq> r1 \<and> deref ?s v = None \<and> deref s2 v = Some b)"
      using ent r2 by simp }
  ultimately show ?thesis by blast
qed

text \<open>
  The scenario of the specification: \<open>a.jpg\<close> is fetched once, and the call one hour
  later is a hit.
\<close>

theorem cacheImage_fetches_once_then_hits_witness:
  "available env_ok (new_state 0) \<and> map_of (images (new_state 0)) a_jpg = None
   \<and> fetched (snd (cacheImage env_ok a_jpg None (new_state 0))) = [a_jpg]
   \<and> fst (cacheImage env_ok a_jpg None (new_state 0)) = Inr ''blob:0''
   \<and> fetched (snd (cacheImage env_ok a_jpg None
        ((snd (cacheImage env_ok a_jpg None (new_state 0)))\<lparr>clock := 3600040\<rparr>))) = [a_jpg]
   \<and> fst (cacheImage env_ok a_jpg None
        ((snd (cacheImage env_ok a_jpg None (new_state 0)))\<lparr>clock := 3600040\<rparr>)) = Inr ''blob:1''"
  using cacheImage_fetches_once_then_hits [where ?e1.0 = env_ok and s = "new_state 0"
      and u = a_jpg and mid = None
      and ?r1.0 = "fst (cacheImage env_ok a_jpg None (new_state 0))"
      and ?s1.0 = "snd (cacheImage env_ok a_jpg None (new_state 0))"
      and ?e2.0 = env_ok and ?mid2.0 = None and t = 3600040
      and ?r2.0 = "fst (cacheImage env_ok a_jpg None
        ((snd (cacheImage env_ok a_jpg None (new_state 0)))\<lparr>clock := 3600040\<rparr>))"
      and ?s2.0 = "snd (cacheImage env_ok a_jpg None
        ((snd (cacheImage env_ok a_jpg None (new_state 0)))\<lparr>clock := 3600040\<rparr>))"
      and st = 200 and b = jpeg]
  by (simp add: run_defs example_defs)

text \<open>
  C3. The constant is seven days. For a URL that has an entry, a lookup returns nothing
  when the entry is expired in the specification's sense, \<open>now - storedAt \<ge> TTL\<close>;
  when the store opens and the read succeeds, it returns nothing exactly then. In that
  case the lookup deletes the entry, \<open>cacheImage\<close> and \<open>urlToBase64\<close> fetch again, and
  when the fetch and the write succeed the entry is written anew with the time of the
  new insertion (the clock after the fetch) as its timestamp.
\<close>

theorem expired_entry_is_refetched:
  assumes "map_of (images s) u = Some r"
  shows "CACHE_EXPIRY = spec_TTL \<and>
    (spec_expired (clock s) r \<longrightarrow>
       fst (getCachedImage e u s) = None \<and> fst (getCachedImageBlob e u s) = None) \<and>
    (available e s \<and> get_ok e \<longrightarrow>
       (fst (getCachedImage e u s) = None) = spec_expired (clock s) r \<and>
       (fst (getCachedImageBlob e u s) = None) = spec_expired (clock s) r \<and>
       (spec_expired (clock s) r \<longrightarrow>
          images (snd (getCachedImage e u s)) = AList.delete u (images s) \<and>
          images (snd (getCachedImageBlob e u s)) = AList.delete u (images s) \<and>
          fetched (snd (cacheImage e u mid s)) = fetched s @ [u] \<and>
          fetched (snd (urlToBase64 e u s)) = fetched s @ [u] \<and>
          (fetch e u = Response st b \<and> ok st \<and> put_ok e \<longrightarrow>
             map_of (images (snd (cacheImage e u mid s))) u =
               Some \<lparr>url = u, blob = b, timestamp = clock s + int (latency e),
                     messageId = mid\<rparr> \<and>
             map_of (images (snd (urlToBase64 e u s))) u =
               Some \<lparr>url = u, blob = b, timestamp = clock s + int (latency e),
                     messageId = None\<rparr>)))"
proof -
  have ttl: "CACHE_EXPIRY = spec_TTL" by (simp add: CACHE_EXPIRY_def spec_TTL_def)
  have never: "fst (getCachedImage e u s) = None \<and> fst (getCachedImageBlob e u s) = None"
    if "spec_expired (clock s) r"
  proof -
    have "fst (getCachedImage e u s) \<noteq> Some v" for v
      using getCachedImage_Some [of e u s v] assms that by auto
    moreover have "fst (getCachedImageBlob e u s) \<noteq> Some v" for v
      using getCachedImageBlob_Some [of e u s v] assms that by auto
    ultimately show ?thesis
      by (metis not_Some_eq)
  qed
  have main: "(fst (getCachedImage e u s) = None) = spec_expired (clock s) r \<and>
       (fst (getCachedImageBlob e u s) = None) = spec_expired (clock s) r \<and>
       (spec_expired (clock s) r \<longrightarrow>
          images (snd (getCachedImage e u s)) = AList.delete u (images s) \<and>
          images (snd (getCachedImageBlob e u s)) = AList.delete u (images s) \<and>
          fetched (snd (cacheImage e u mid s)) = fetched s @ [u] \<and>
          fetched (snd (urlToBase64 e u s)) = fetched s @ [u] \<and>
          (fetch e u = Response st b \<and> ok st \<and> put_ok e \<longrightarrow>
             map_of (images (snd (cacheImage e u mid s))) u =
               Some \<lparr>url = u, blob = b, timestamp = clock s + int (latency e),
                     messageId = mid\<rparr> \<and>
             map_of (images (snd (urlToBase64 e u s))) u =
               Some \<lparr>url = u, blob = b, timestamp = clock s + int (latency e),
                     messageId = None\<rparr>))"
    if a: "available e s" and g: "get_ok e"
  proof -
    note av = available_init [OF a]
    have look: "getCachedImage e u s =
        (if clock s - timestamp r < CACHE_EXPIRY
         then (Some (object_url (length (objectURLs s))),
               (opened s)\<lparr>objectURLs := objectURLs s @ [blob r]\<rparr>)
         else (None, (opened s)\<lparr>images := AList.delete u (images s)\<rparr>))"
      using g assms
      by (simp add: getCachedImage_opened [OF a]
          getCachedImage_initialized [OF opened_fields(6) av(2)] opened_fields)
    have lookb: "getCachedImageBlob e u s =
        (if clock s - timestamp r < CACHE_EXPIRY
         then (Some (blob r), opened s)
         else (None, (opened s)\<lparr>images := AList.delete u (images s)\<rparr>))"
      using g assms
      by (simp add: getCachedImageBlob_opened [OF a]
          getCachedImageBlob_initialized [OF opened_fields(6) av(2)] opened_fields)
    have B: "(fst (getCachedImage e u s) = None) = spec_expired (clock s) r"
      "(fst (getCachedImageBlob e u s) = None) = spec_expired (clock s) r"
      by (simp_all add: look lookb spec_expired_iff)
    have C: "images (snd (getCachedImage e u s)) = AList.delete u (images s) \<and>
          images (snd (getCachedImageBlob e u s)) = AList.delete u (images s) \<and>
          fetched (snd (cacheImage e u mid s)) = fetched s @ [u] \<and>
          fetched (snd (urlToBase64 e u s)) = fetched s @ [u] \<and>
          (fetch e u = Response st b \<and> ok st \<and> put_ok e \<longrightarrow>
             map_of (images (snd (cacheImage e u mid s))) u =
               Some \<lparr>url = u, blob = b, timestamp = clock s + int (latency e),
                     messageId = mid\<rparr> \<and>
             map_of (images (snd (urlToBase64 e u s))) u =
               Some \<lparr>url = u, blob = b, timestamp = clock s + int (latency e),
                     messageId = None\<rparr>)"
      if x: "spec_expired (clock s) r"
    proof -
      have nf: "\<not> fresh_hit e u s"
        using x assms by (simp add: fresh_hit_def spec_expired_iff)
      have d: "images (snd (getCachedImage e u s)) = AList.delete u (images s)"
        "images (snd (getCachedImageBlob e u s)) = AList.delete u (images s)"
        using x by (simp_all add: look lookb spec_expired_iff)
      have f: "fetched (snd (cacheImage e u mid s)) = fetched s @ [u]"
        "fetched (snd (urlToBase64 e u s)) = fetched s @ [u]"
        by (rule cacheImage_fetched_miss [OF a nf])
           (rule urlToBase64_fetched_miss [OF a nf])
      have w: "map_of (images (snd (cacheImage e u mid s))) u =
               Some \<lparr>url = u, blob = b, timestamp = clock s + int (latency e),
                     messageId = mid\<rparr> \<and>
             map_of (images (snd (urlToBase64 e u s))) u =
               Some \<lparr>url = u, blob = b, timestamp = clock s + int (latency e),
                     messageId = None\<rparr>"
        if h: "fetch e u = Response st b" "ok st" "put_ok e"
        by (simp add: cacheImage_stores [OF a nf h] urlToBase64_stores [OF a nf h] update_conv')
      from d f w show ?thesis by blast
    qed
    from B C show ?thesis by blast
  qed
  from ttl never main show ?thesis by blast
qed

text \<open>
  An entry stored at time 0, looked up eight days later.
\<close>

theorem expired_entry_is_refetched_witness:
  "map_of (images (stored_at_0 691200000)) a_jpg =
     Some \<lparr>url = a_jpg, blob = jpeg, timestamp = 0, messageId = None\<rparr>
   \<and> spec_expired (clock (stored_at_0 691200000))
       \<lparr>url = a_jpg, blob = jpeg, timestamp = 0, messageId = None\<rparr>
   \<and> available env_ok (stored_at_0 691200000) \<and> get_ok env_ok
   \<and> fetch env_ok a_jpg = Response 200 jpeg \<and> ok 200 \<and> put_ok env_ok
   \<and> fst (getCachedImage env_ok a_jpg (stored_at_0 691200000)) = None
   \<and> images (snd (getCachedImage env_ok a_jpg (stored_at_0 691200000))) = []
   \<and> fetched (snd (cacheImage env_ok a_jpg None (stored_at_0 691200000))) = [a_jpg]
   \<and> map_of (images (snd (cacheImage env_ok a_jpg None (stored_at_0 691200000)))) a_jpg =
       Some \<lparr>url = a_jpg, blob = jpeg, timestamp = 691200040, messageId = None\<rparr>"
  using expired_entry_is_refetched [of "stored_at_0 691200000" a_jpg
      "\<lparr>url = a_jpg, blob = jpeg, timestamp = 0, messageId = None\<rparr>" env_ok None 200 jpeg]
  by (simp add: run_defs example_defs)

text \<open>
  C4, as amended. When the store opens, the lookup is not a fresh hit (so that a fetch is
  made) and the fetch fails, by rejection or by a status outside 200 to 299,
  \<open>urlToBase64\<close> fails with that error and writes no entry. The store is what it was,
  except that an entry for the URL that the lookup found expired has been deleted.
\<close>

theorem urlToBase64_fetch_failure:
  assumes "available e s" and "\<not> fresh_hit e u s"
    and "fetch e u = Rejected \<or> (\<exists>st b. fetch e u = Response st b \<and> \<not> ok st)"
  shows "fst (urlToBase64 e u s) =
       Inl (case fetch e u of Rejected \<Rightarrow> FetchRejected | Response st b \<Rightarrow> FetchStatus st) \<and>
     images (snd (urlToBase64 e u s)) =
       (if get_ok e \<and> map_of (images s) u \<noteq> None then AList.delete u (images s)
        else images s) \<and>
     set (images (snd (urlToBase64 e u s))) \<subseteq> set (images s)"
proof -
  note av = available_init [OF assms(1)]
  have nf: "\<not> fresh_hit e u (opened s)" using assms(2) by (simp add: fresh_hit_opened)
  have "urlToBase64 e u s =
      (Inl (case fetch e u of Rejected \<Rightarrow> FetchRejected | Response st b \<Rightarrow> FetchStatus st),
       warn ''Failed to convert URL to base64:''
         (case fetch e u of Rejected \<Rightarrow> FetchRejected | Response st b \<Rightarrow> FetchStatus st)
         (after_miss e u (opened s)))"
    using urlToBase64_try_miss [OF opened_fields(6) av(2) nf] assms(3)
    by (auto simp: urlToBase64_def urlToBase64_try_opened [OF assms(1)])
  then show ?thesis
    using delete_subset [of u "images s"]
    by (auto simp: warn_def after_miss_fields opened_fields)
qed

text \<open>
  A status of 500 for a URL whose entry is eight days old.
\<close>

theorem urlToBase64_fetch_failure_witness:
  "available env_500 (stored_at_0 691200000)
   \<and> \<not> fresh_hit env_500 a_jpg (stored_at_0 691200000)
   \<and> fetch env_500 a_jpg = Response 500 \<lparr>mime = ''text/plain'', bytes = []\<rparr>
   \<and> fst (urlToBase64 env_500 a_jpg (stored_at_0 691200000)) = Inl (FetchStatus 500)
   \<and> images (snd (urlToBase64 env_500 a_jpg (stored_at_0 691200000))) = []"
  using urlToBase64_fetch_failure [of env_500 "stored_at_0 691200000" a_jpg]
  by (simp add: run_defs example_defs)

text \<open>
  C4 as stated fails there: the call fails with the fetch error, and the store is not the
  store before the call, the expired entry having been deleted by the lookup.
\<close>

theorem urlToBase64_fetch_failure_changes_store:
  "fst (urlToBase64 env_500 a_jpg (stored_at_0 691200000)) = Inl (FetchStatus 500)
   \<and> images (snd (urlToBase64 env_500 a_jpg (stored_at_0 691200000)))
       \<noteq> images (stored_at_0 691200000)"
  by (simp add: run_defs example_defs)

text \<open>
  C5, as amended. When the fetch succeeds and the write fails, \<open>cacheImage\<close> returns the
  original URL and mints no object URL, \<open>urlToBase64\<close> fails with the error of the
  write, and neither adds an entry to the store.
\<close>

theorem write_failure_loses_content:
  assumes "available e s" and "\<not> fresh_hit e u s"
    and "fetch e u = Response st b" and "ok st" and "\<not> put_ok e"
  shows "fst (cacheImage e u mid s) = Inr u \<and>
     objectURLs (snd (cacheImage e u mid s)) = objectURLs s \<and>
     set (images (snd (cacheImage e u mid s))) \<subseteq> set (images s) \<and>
     fst (urlToBase64 e u s) = Inl PutFailed \<and>
     set (images (snd (urlToBase64 e u s))) \<subseteq> set (images s)"
proof -
  note av = available_init [OF assms(1)]
  have nf: "\<not> fresh_hit e u (opened s)" using assms(2) by (simp add: fresh_hit_opened)
  have c: "cacheImage e u mid s =
      (Inr u, warn ''Failed to cache image:'' PutFailed (after_miss e u (opened s)))"
    using cacheImage_try_miss [OF opened_fields(6) av(2) nf, of mid] assms(3-5)
    by (simp add: cacheImage_def cacheImage_try_opened [OF assms(1)])
  have b: "urlToBase64 e u s =
      (Inl PutFailed, warn ''Failed to convert URL to base64:'' PutFailed (after_miss e u (opened s)))"
    using urlToBase64_try_miss [OF opened_fields(6) av(2) nf] assms(3-5)
    by (simp add: urlToBase64_def urlToBase64_try_opened [OF assms(1)])
  show ?thesis
    using delete_subset [of u "images s"]
    by (simp add: c b warn_def after_miss_fields opened_fields)
qed

text \<open>
  A store that refuses the write, in a fresh profile.
\<close>

theorem write_failure_loses_content_witness:
  "available env_quota (new_state 0) \<and> \<not> fresh_hit env_quota a_jpg (new_state 0)
   \<and> fetch env_quota a_jpg = Response 200 jpeg \<and> ok 200 \<and> \<not> put_ok env_quota
   \<and> fst (cacheImage env_quota a_jpg None (new_state 0)) = Inr a_jpg
   \<and> fst (urlToBase64 env_quota a_jpg (new_state 0)) = Inl PutFailed"
  using write_failure_loses_content [of env_quota "new_state 0" a_jpg 200 jpeg None]
  by (simp add: run_defs example_defs)

text \<open>
  C5 as stated fails there: the image was fetched, yet \<open>cacheImage\<close> returns the URL it
  was given, not an object URL, and \<open>urlToBase64\<close> returns no data URI but the error.
\<close>

theorem write_failure_counterexample:
  "fetched (snd (cacheImage env_quota a_jpg None (new_state 0))) = [a_jpg]
   \<and> fst (cacheImage env_quota a_jpg None (new_state 0)) = Inr a_jpg
   \<and> objectURLs (snd (cacheImage env_quota a_jpg None (new_state 0))) = []
   \<and> fetched (snd (urlToBase64 env_quota a_jpg (new_state 0))) = [a_jpg]
   \<and> fst (urlToBase64 env_quota a_jpg (new_state 0)) = Inl PutFailed"
  by (simp add: run_defs example_defs)

text \<open>
  C6, as amended. When the database cannot be opened, \<open>cacheImage\<close> returns the URL it
  was given, and \<open>urlToBase64\<close> fails with the error of the open; neither makes a fetch
  or touches the store.
\<close>

theorem store_unavailable:
  assumes "\<not> isInitialized s" and "\<not> open_ok e"
  shows "fst (cacheImage e u mid s) = Inr u \<and>
     fetched (snd (cacheImage e u mid s)) = fetched s \<and>
     images (snd (cacheImage e u mid s)) = images s \<and>
     fst (urlToBase64 e u s) = Inl OpenFailed \<and>
     fetched (snd (urlToBase64 e u s)) = fetched s \<and>
     images (snd (urlToBase64 e u s)) = images s"
  by (simp add: cacheImage_unopenable [OF assms] urlToBase64_unopenable [OF assms]
      warn_def init_begin_def)

text \<open>
  A browser whose database does not open.
\<close>

theorem store_unavailable_witness:
  "\<not> isInitialized (new_state 0) \<and> \<not> open_ok env_nodb
   \<and> fst (cacheImage env_nodb a_jpg None (new_state 0)) = Inr a_jpg
   \<and> fst (urlToBase64 env_nodb a_jpg (new_state 0)) = Inl OpenFailed"
  using store_unavailable [of "new_state 0" env_nodb a_jpg None]
  by (simp add: run_defs example_defs)

text \<open>
  C6 as stated fails there: the server would answer 200, yet \<open>urlToBase64\<close> makes no
  fetch and returns the error of the open.
\<close>

theorem store_unavailable_counterexample:
  "fetch env_nodb a_jpg = Response 200 jpeg \<and> ok 200
   \<and> fst (urlToBase64 env_nodb a_jpg (new_state 0)) = Inl OpenFailed
   \<and> fetched (snd (urlToBase64 env_nodb a_jpg (new_state 0))) = []"
  by (simp add: run_defs example_defs)

text \<open>
  C7. Given a URL that starts with \<open>blob:\<close> or \<open>data:\<close>, the hook sets \<open>cachedUrl\<close>
  to that URL and leaves the state as it was: the database is not opened, the store is
  not read, nothing is fetched. The test is made by the hook, the one caller of
  \<open>cacheImage\<close>; \<open>cacheImage\<close> makes no such test of its own.
\<close>

theorem useCachedImage_passthrough:
  assumes "prefix ''blob:'' u \<or> prefix ''data:'' u"
  shows "useCachedImage e (Some u) mid (h, s) = (h\<lparr>cachedUrl := Some u\<rparr>, s)"
  using assms by (auto simp: useCachedImage_def)

text \<open>
  An object URL and a data URI.
\<close>

theorem useCachedImage_passthrough_witness:
  "(prefix ''blob:'' ''blob:0'' \<or> prefix ''data:'' ''blob:0'')
   \<and> useCachedImage env_ok (Some ''blob:0'') None (\<lparr>cachedUrl = None, isLoading = False\<rparr>, new_state 0)
       = (\<lparr>cachedUrl = Some ''blob:0'', isLoading = False\<rparr>, new_state 0)
   \<and> opens (snd (useCachedImage env_ok (Some ''data:image/png;base64,AAAA'') None
        (\<lparr>cachedUrl = None, isLoading = False\<rparr>, new_state 0))) = 0"
  using useCachedImage_passthrough [of "''blob:0''" env_ok None "\<lparr>cachedUrl = None, isLoading = False\<rparr>" "new_state 0"]
    useCachedImage_passthrough [of "''data:image/png;base64,AAAA''" env_ok None
       "\<lparr>cachedUrl = None, isLoading = False\<rparr>" "new_state 0"]
  by (simp add: new_state_def)

text \<open>
  C8. On a store that opens and whose keys are distinct (they are primary keys),
  \<open>clearExpiredCache\<close> leaves exactly the entries that are not expired at the time of
  the sweep, in their order and unchanged; every entry of age \<open>CACHE_EXPIRY\<close> or more
  is gone. A second sweep at the same time changes nothing.
\<close>

theorem clearExpiredCache_sweeps:
  assumes "available e s" and "distinct (map fst (images s))"
  shows "images (clearExpiredCache e s) =
       filter (\<lambda>kr. \<not> spec_expired (clock s) (snd kr)) (images s) \<and>
     clearExpiredCache e (clearExpiredCache e s) = clearExpiredCache e s"
proof -
  define keep :: "string \<times> CachedImage \<Rightarrow> bool"
    where "keep = (\<lambda>kr. \<not> spec_expired (clock s) (snd kr))"
  define s1 where "s1 = (opened s)\<lparr>images := filter keep (images s)\<rparr>"
  have one: "clearExpiredCache e s = s1"
    unfolding s1_def keep_def
    by (simp add: clearExpiredCache_available [OF assms(1)] sweep_expired [OF assms(2)])
  have f1: "images s1 = filter keep (images s)" "clock s1 = clock s" "isInitialized s1"
    by (simp_all add: s1_def opened_fields)
  have av1: "available e s1"
    using available_init [OF assms(1)] by (simp add: available_iff s1_def opened_fields)
  have d1: "distinct (map fst (images s1))"
    using assms(2) by (simp add: f1 distinct_map_filter)
  have "clearExpiredCache e s1 =
      (opened s1)\<lparr>images := filter (\<lambda>kr. \<not> spec_expired (clock s1) (snd kr)) (images s1)\<rparr>"
    by (simp add: clearExpiredCache_available [OF av1] sweep_expired [OF d1])
  also have "\<dots> = s1\<lparr>images := filter keep (filter keep (images s))\<rparr>"
    by (simp add: opened_idem f1 keep_def)
  also have "\<dots> = s1"
    by (simp add: s1_def)
  finally have two: "clearExpiredCache e s1 = s1" .
  show ?thesis
    using one two f1(1) by (simp add: keep_def)
qed

text \<open>
  Eight days after the first entry was written, the sweep removes it and keeps the second.
\<close>

theorem clearExpiredCache_sweeps_witness:
  "available env_ok (two_entries 691200000)
   \<and> distinct (map fst (images (two_entries 691200000)))
   \<and> images (clearExpiredCache env_ok (two_entries 691200000)) =
       [(''https://example.com/b.jpg'',
         \<lparr>url = ''https://example.com/b.jpg'', blob = jpeg, timestamp = 604800000,
          messageId = Some ''m1''\<rparr>)]
   \<and> clearExpiredCache env_ok (clearExpiredCache env_ok (two_entries 691200000))
       = clearExpiredCache env_ok (two_entries 691200000)"
  using clearExpiredCache_sweeps [of env_ok "two_entries 691200000"]
  by (simp add: run_defs example_defs)

text \<open>
  C9, as amended. Constructing the manager opens nothing. A call of \<open>init\<close> on a manager
  that is not initialised, awaited on its own, is the synchronous part followed by the
  success handler: it opens the database once and sets the flag. Once the flag is set, no
  sequence of calls and handlers opens the database again, and \<open>init\<close> resolves at once.
  Before the flag is set, each call of \<open>init\<close> issues an open request of its own.
\<close>

theorem init_memoized_after_open:
  "opens (new_state t) = 0 \<and> \<not> isInitialized (new_state t) \<and>
   (\<not> isInitialized s \<and> open_ok e \<longrightarrow>
      snd (init e s) = run [InitCalled, OpenSucceeded] s \<and>
      opens (snd (init e s)) = opens s + 1 \<and>
      isInitialized (snd (init e s)) \<and> db (snd (init e s)) \<noteq> None) \<and>
   (isInitialized s \<longrightarrow>
      opens (run evs s) = opens s \<and> isInitialized (run evs s) \<and>
      init e (run evs s) = (Inr (), run evs s)) \<and>
   (\<not> isInitialized s \<longrightarrow> opens (run (replicate n InitCalled) s) = opens s + n)"
proof -
  have a: "opens (new_state t) = 0 \<and> \<not> isInitialized (new_state t)"
    by (simp add: new_state_def)
  have b: "snd (init e s) = run [InitCalled, OpenSucceeded] s \<and>
      opens (snd (init e s)) = opens s + 1 \<and>
      isInitialized (snd (init e s)) \<and> db (snd (init e s)) \<noteq> None"
    if "\<not> isInitialized s" "open_ok e"
    using that by (simp add: init_def run_def init_begin_def onsuccess_def)
  have c: "opens (run evs s) = opens s \<and> isInitialized (run evs s) \<and>
      init e (run evs s) = (Inr (), run evs s)"
    if "isInitialized s"
    using run_initialized [OF that, of evs] by (simp add: init_initialized)
  from a b c run_calls [of s n] show ?thesis by blast
qed

text \<open>
  One open in a fresh profile; later calls open nothing; three calls before any open has
  succeeded make three open requests.
\<close>

theorem init_memoized_after_open_witness:
  "\<not> isInitialized (new_state 0) \<and> open_ok env_ok
   \<and> opens (snd (init env_ok (new_state 0))) = 1
   \<and> isInitialized (snd (init env_ok (new_state 0)))
   \<and> opens (run [InitCalled, OpenSucceeded, InitCalled, InitCalled]
        (snd (init env_ok (new_state 0)))) = 1
   \<and> opens (run (replicate 3 InitCalled) (new_state 0)) = 3"
  using init_memoized_after_open [of 0 "new_state 0" env_ok "[]" 3]
    init_memoized_after_open [of 0 "snd (init env_ok (new_state 0))" env_ok
      "[InitCalled, OpenSucceeded, InitCalled, InitCalled]" 0]
  by (simp add: run_defs example_defs numeral_3_eq_3)

text \<open>
  C9 as stated fails there: two calls of \<open>init\<close> that both begin before the first open
  request has succeeded open the database twice, the flag being set by the handler only.
\<close>

theorem concurrent_first_use_opens_twice:
  "opens (run [InitCalled, InitCalled, OpenSucceeded, OpenSucceeded] (new_state 0)) = 2"
  by (simp add: run_def init_begin_def onsuccess_def new_state_def)

text \<open>
  C10. On a store that opens and answers the count, \<open>getCacheSize\<close> returns the number
  of records in the store, whatever their age, and leaves the store as it is. When one of
  the records is expired, that number exceeds the number of URLs for which a lookup
  (of either kind) returns content.
\<close>

theorem getCacheSize_counts_expired:
  assumes "available e s" and "count_ok e"
  shows "fst (getCacheSize e s) = length (images s) \<and>
     images (snd (getCacheSize e s)) = images s \<and>
     ((\<exists>kr \<in> set (images s). spec_expired (clock s) (snd kr)) \<longrightarrow>
        card {k. fst (getCachedImage e' k s) \<noteq> None} < fst (getCacheSize e s) \<and>
        card {k. fst (getCachedImageBlob e' k s) \<noteq> None} < fst (getCacheSize e s))"
proof -
  have sz: "getCacheSize e s = (length (images s), opened s)"
    using assms(2) by (simp add: getCacheSize_available [OF assms(1)])
  have "card {k. fst (getCachedImage e' k s) \<noteq> None} < length (images s) \<and>
      card {k. fst (getCachedImageBlob e' k s) \<noteq> None} < length (images s)"
    if "\<exists>kr \<in> set (images s). spec_expired (clock s) (snd kr)"
  proof -
    from that obtain kr where "kr \<in> set (images s)" "spec_expired (clock s) (snd kr)" by auto
    then have "length (filter (\<lambda>kr. \<not> spec_expired (clock s) (snd kr)) (images s))
        < length (images s)"
      by (intro length_filter_less) auto
    with hits_bound [of e' s] hits_bound_blob [of e' s] show ?thesis by simp
  qed
  then show ?thesis by (simp add: sz opened_fields)
qed

text \<open>
  Two records, one of them expired: the count is two, and fewer than two URLs are hits.
\<close>

theorem getCacheSize_counts_expired_witness:
  "available env_ok (two_entries 691200000) \<and> count_ok env_ok
   \<and> spec_expired (clock (two_entries 691200000))
        \<lparr>url = a_jpg, blob = jpeg, timestamp = 0, messageId = None\<rparr>
   \<and> fst (getCacheSize env_ok (two_entries 691200000)) = 2
   \<and> fst (getCachedImage env_ok a_jpg (two_entries 691200000)) = None
   \<and> card {k. fst (getCachedImage env_ok k (two_entries 691200000)) \<noteq> None} < 2"
  using getCacheSize_counts_expired [of env_ok "two_entries 691200000" env_ok]
  by (simp add: run_defs example_defs)

end
